theory Spec2Isabelle
  imports Main
begin

section \<open>The Armory SDK updater (armory.py)\<close>

text \<open>
  The add-on clones nine git repositories below an SDK root, counts the completion
  callbacks of the clones and can restore the previous copies. The embedding below follows
  \<^verbatim>\<open>armory.py\<close> function by function. Everything the operating system, the git
  binary and Blender decide is a parameter (the records \<open>bcontext\<close> and \<open>env\<close>); everything
  the code mutates is a field of the record \<open>world\<close>, passed explicitly.
\<close>

subsection \<open>Errors as values\<close>

datatype error =
    FileNotFoundError
  | FileExistsError
  | PermissionError
  | DirectoryNotEmpty
  | UnicodeDecodeError

definition and_then :: "error + 'a \<Rightarrow> ('a \<Rightarrow> error + 'b) \<Rightarrow> error + 'b" where
  "and_then r f = (case r of Inl e \<Rightarrow> Inl e | Inr x \<Rightarrow> f x)"

subsection \<open>Regular expressions, as far as \<^verbatim>\<open>re.match\<close> is used\<close>

text \<open>
  \<^verbatim>\<open>re.match(pattern, s)\<close> succeeds when some prefix of \<open>s\<close> is matched by the pattern.
  \<open>rests r s\<close> lists what is left of \<open>s\<close> after each way of matching \<open>r\<close> at its start;
  Python's backtracking search finds a match exactly when that list is not empty.
  \<open>Dot\<close> is the pattern character \<^verbatim>\<open>.\<close> (any character but a newline), \<open>Digit\<close> the class
  \<^verbatim>\<open>[0-9]\<close>, \<open>Plus\<close> the postfix \<^verbatim>\<open>+\<close>.
\<close>

datatype regex = Lit string | Digit | Dot | Plus regex | Seq regex regex

primrec iter :: "nat \<Rightarrow> (string \<Rightarrow> string list) \<Rightarrow> string \<Rightarrow> string list" where
  "iter 0 f s = f s"
| "iter (Suc k) f s =
     (let xs = f s in xs @ concat (map (iter k f) (filter (\<lambda>x. length x < length s) xs)))"

primrec rests :: "regex \<Rightarrow> string \<Rightarrow> string list" where
  "rests (Lit l) = (\<lambda>s. if take (length l) s = l then [drop (length l) s] else [])"
| "rests Digit = (\<lambda>s. case s of [] \<Rightarrow> [] | c # cs \<Rightarrow> if c \<in> set ''0123456789'' then [cs] else [])"
| "rests Dot = (\<lambda>s. case s of [] \<Rightarrow> [] | c # cs \<Rightarrow> if c \<noteq> CHR 0x0A then [cs] else [])"
| "rests (Plus r) = (\<lambda>s. iter (length s) (rests r) s)"
| "rests (Seq a b) = (\<lambda>s. concat (map (rests b) (rests a s)))"

definition re_match :: "regex \<Rightarrow> string \<Rightarrow> bool" where
  "re_match r s = (rests r s \<noteq> [])"

text \<open>The pattern of \<open>git_test\<close>: \<^verbatim>\<open>"git version [0-9]+.[0-9]+.[0-9]+"\<close>.\<close>

definition git_version_pattern :: regex where
  "git_version_pattern =
     Seq (Lit ''git version '')
       (Seq (Plus Digit) (Seq Dot (Seq (Plus Digit) (Seq Dot (Plus Digit)))))"

subsection \<open>The file system\<close>

text \<open>
  A path is the string the code builds, taken as absolute and compared as a string; an
  occupied path holds the tree of a directory. A file and a directory carry a flag: the
  read-only attribute on Windows, a missing write permission on POSIX.
  \<open>chmod_write\<close> is \<^verbatim>\<open>os.chmod(path, stat.S_IWRITE)\<close>.

  \<open>os_remove\<close> is \<^verbatim>\<open>os.unlink\<close> on a file and \<^verbatim>\<open>os.rmdir\<close> on a directory, for an entry
  of a directory whose write permission is \<open>pw\<close>; \<open>Inr None\<close> says the entry is gone. A
  directory that still has entries is refused. Otherwise Windows refuses an entry whose
  own read-only attribute is set, and POSIX refuses an entry of a directory without
  write permission, whatever the entry's own mode.
\<close>

datatype platform = Windows | Posix

datatype node = File bool string | Dir bool "(string \<times> node) list"

type_synonym tree = "(string \<times> node) list"

fun readonly :: "node \<Rightarrow> bool" where
  "readonly (File ro d) = ro"
| "readonly (Dir ro es) = ro"

fun chmod_write :: "node \<Rightarrow> node" where
  "chmod_write (File ro d) = File False d"
| "chmod_write (Dir ro es) = Dir False es"

fun has_entries :: "node \<Rightarrow> bool" where
  "has_entries (File ro d) = False"
| "has_entries (Dir ro es) = (es \<noteq> [])"

definition os_remove :: "platform \<Rightarrow> bool \<Rightarrow> node \<Rightarrow> error + node option" where
  "os_remove pf pw x =
     (if has_entries x then Inl DirectoryNotEmpty
      else if (case pf of Windows \<Rightarrow> readonly x | Posix \<Rightarrow> \<not> pw) then Inl PermissionError
      else Inr None)"

text \<open>
  An \<^verbatim>\<open>onerror\<close> handler gets the function that failed, the entry and the error; what
  it returns is what it leaves of the entry.
  \<^verbatim>\<open>def remove_readonly(func, path, excinfo): os.chmod(path, stat.S_IWRITE); func(path)\<close>
\<close>

type_synonym onerror =
  "(node \<Rightarrow> error + node option) \<Rightarrow> node \<Rightarrow> error \<Rightarrow> error + node option"

definition remove_readonly :: onerror where
  "remove_readonly func path excinfo = func (chmod_write path)"

text \<open>The default of \<^verbatim>\<open>shutil.rmtree\<close> (no \<^verbatim>\<open>onerror\<close>): the exception is raised again.\<close>

definition onerror_raise :: onerror where
  "onerror_raise func path excinfo = Inl excinfo"

text \<open>
  \<^verbatim>\<open>shutil.rmtree\<close> walks the tree: the entries of a directory are removed, then the
  directory itself; a file is unlinked; a failing call goes to the \<^verbatim>\<open>onerror\<close>
  handler, and the walk goes on when the handler returns. \<open>rm_node\<close> returns what is
  left of the entry, \<open>rm_entries\<close> the entries that are left.
\<close>

fun rm_node :: "platform \<Rightarrow> onerror \<Rightarrow> bool \<Rightarrow> node \<Rightarrow> error + node option"
  and rm_entries :: "platform \<Rightarrow> onerror \<Rightarrow> bool \<Rightarrow> (string \<times> node) list \<Rightarrow> error + (string \<times> node) list" where
  "rm_node pf h pw (File ro d) =
     (case os_remove pf pw (File ro d) of
        Inl e \<Rightarrow> h (os_remove pf pw) (File ro d) e
      | Inr r \<Rightarrow> Inr r)"
| "rm_node pf h pw (Dir ro es) =
     (case rm_entries pf h (\<not> ro) es of
        Inl e \<Rightarrow> Inl e
      | Inr es' \<Rightarrow>
          (case os_remove pf pw (Dir ro es') of
             Inl e \<Rightarrow> h (os_remove pf pw) (Dir ro es') e
           | Inr r \<Rightarrow> Inr r))"
| "rm_entries pf h pw [] = Inr []"
| "rm_entries pf h pw (ne # es) =
     (case rm_node pf h pw (snd ne) of
        Inl e \<Rightarrow> Inl e
      | Inr None \<Rightarrow> rm_entries pf h pw es
      | Inr (Some x) \<Rightarrow>
          (case rm_entries pf h pw es of
             Inl e \<Rightarrow> Inl e
           | Inr es' \<Rightarrow> Inr ((fst ne, x) # es')))"

subsection \<open>The state the code mutates\<close>

text \<open>
  \<open>files\<close> is the disk, \<open>cwd\<close> the working directory, \<open>procs\<close> the commands of the spawned
  processes that still run (each with its waiter thread), \<open>out\<close> the lines printed to the
  console, \<open>reports\<close> the calls of \<^verbatim>\<open>self.report\<close>, and the three counters are the
  module's globals.
\<close>

datatype level = INFO | ERROR

record world =
  files :: "string \<Rightarrow> tree option"
  cwd :: string
  procs :: "string list list"
  out :: "string list"
  reports :: "(level \<times> string) list"
  repos_updated :: int
  repos_total :: int
  repos_done :: int

definition print :: "string \<Rightarrow> world \<Rightarrow> world" where
  "print line w = w\<lparr>out := out w @ [line]\<rparr>"

definition report :: "level \<Rightarrow> string \<Rightarrow> world \<Rightarrow> world" where
  "report l msg w = w\<lparr>reports := reports w @ [(l, msg)]\<rparr>"

text \<open>\<^verbatim>\<open>print(a, b, ...)\<close> writes its arguments separated by one space.\<close>

fun unwords :: "string list \<Rightarrow> string" where
  "unwords [] = []"
| "unwords [x] = x"
| "unwords (x # y # ys) = x @ '' '' @ unwords (y # ys)"

definition path_exists :: "world \<Rightarrow> string \<Rightarrow> bool" where
  "path_exists w p = (files w p \<noteq> None)"

text \<open>
  \<^verbatim>\<open>os.rename\<close> needs its source and refuses an occupied destination;
  \<^verbatim>\<open>os.makedirs\<close> refuses an existing path; \<^verbatim>\<open>os.chdir\<close> needs its target.
\<close>

definition os_rename :: "string \<Rightarrow> string \<Rightarrow> world \<Rightarrow> error + world" where
  "os_rename src dst w =
     (if files w src = None then Inl FileNotFoundError
      else if files w dst \<noteq> None then Inl FileExistsError
      else Inr (w\<lparr>files := ((files w)(src := None))(dst := files w src)\<rparr>))"

definition os_makedirs :: "string \<Rightarrow> world \<Rightarrow> error + world" where
  "os_makedirs p w =
     (if files w p \<noteq> None then Inl FileExistsError
      else Inr (w\<lparr>files := (files w)(p \<mapsto> [])\<rparr>))"

definition os_chdir :: "string \<Rightarrow> world \<Rightarrow> error + world" where
  "os_chdir p w = (if files w p = None then Inl FileNotFoundError else Inr (w\<lparr>cwd := p\<rparr>))"

text \<open>
  \<^verbatim>\<open>shutil.rmtree(path, onerror=h)\<close> on platform \<open>pf\<close>. The directory at the path is
  itself writable and lies in a writable directory. \<open>shutil_rmtree\<close> is the call on
  Windows, the platform \<open>remove_readonly\<close> is written for; \<open>download_sdk\<close> and the
  restore operator are followed there.
\<close>

definition shutil_rmtree_os :: "platform \<Rightarrow> string \<Rightarrow> onerror \<Rightarrow> world \<Rightarrow> error + world" where
  "shutil_rmtree_os pf p h w =
     (case files w p of
        None \<Rightarrow> Inl FileNotFoundError
      | Some t \<Rightarrow>
          (case rm_node pf h True (Dir False t) of
             Inl e \<Rightarrow> Inl e
           | Inr None \<Rightarrow> Inr (w\<lparr>files := (files w)(p := None)\<rparr>)
           | Inr (Some (Dir ro t')) \<Rightarrow> Inr (w\<lparr>files := (files w)(p \<mapsto> t')\<rparr>)
           | Inr (Some (File ro d)) \<Rightarrow> Inr w))"

definition shutil_rmtree :: "string \<Rightarrow> onerror \<Rightarrow> world \<Rightarrow> error + world" where
  "shutil_rmtree p h w = shutil_rmtree_os Windows p h w"

subsection \<open>What the surroundings decide\<close>

text \<open>
  \<open>bcontext\<close> (the \<^verbatim>\<open>context\<close> of an operator): Blender's data the code reads (\<^verbatim>\<open>bpy.data.filepath\<close>, the add-on
  preference \<^verbatim>\<open>sdk_path\<close>, \<^verbatim>\<open>os.path.sep\<close>).
  \<open>env\<close>: what \<^verbatim>\<open>subprocess.Popen\<close> does. \<open>version_probe\<close> is the outcome of running
  \<^verbatim>\<open>git --version\<close> to its end in the world it is started in: the call raises, or the
  output is no UTF-8, or it decodes to a text. \<open>popen\<close> is the outcome of spawning a
  command. \<open>git_run\<close> is what a spawned command has done to the disk when it exits, and
  its exit code.
\<close>

record bcontext =
  filepath :: string
  sdk_path :: string
  sep :: char

datatype probe_result = ProbeRaises string | Undecodable | Output string

datatype spawn_result = Spawned | RaisesOSError "int option" string | RaisesException string

record env =
  version_probe :: "world \<Rightarrow> probe_result"
  popen :: "string list \<Rightarrow> spawn_result"
  git_run :: "string list \<Rightarrow> (string \<Rightarrow> tree option) \<Rightarrow> int \<times> (string \<Rightarrow> tree option)"

subsection \<open>get_fp, get_sdk_path\<close>

text \<open>\<^verbatim>\<open>str.split(sep)\<close> for a separator of one character, and \<^verbatim>\<open>sep.join\<close>.\<close>

fun split_sep :: "char \<Rightarrow> string \<Rightarrow> string list" where
  "split_sep c [] = [[]]"
| "split_sep c (x # xs) =
     (if x = c then [] # split_sep c xs
      else (case split_sep c xs of [] \<Rightarrow> [[x]] | y # ys \<Rightarrow> (x # y) # ys))"

fun join_sep :: "char \<Rightarrow> string list \<Rightarrow> string" where
  "join_sep c [] = []"
| "join_sep c [x] = x"
| "join_sep c (x # y # ys) = x @ [c] @ join_sep c (y # ys)"

definition get_fp :: "bcontext \<Rightarrow> string" where
  "get_fp ctx =
     (if filepath ctx = [] then []
      else join_sep (sep ctx) (butlast (split_sep (sep ctx) (filepath ctx))))"

definition get_sdk_path :: "bcontext \<Rightarrow> world \<Rightarrow> string" where
  "get_sdk_path ctx w =
     (if path_exists w (get_fp ctx @ ''/armsdk'') then get_fp ctx @ ''/armsdk''
      else sdk_path ctx)"

subsection \<open>run_proc\<close>

text \<open>
  The callback \<^verbatim>\<open>done\<close> is a function on the world, or \<open>None\<close>. \<open>fn\<close> is the body of the
  waiter thread once \<^verbatim>\<open>p.wait()\<close> has returned the exit code. \<open>run_proc\<close> is the part that
  runs in the caller: on a spawn error the callback runs at once with 1 and the error
  is printed; otherwise the waiter is started.
\<close>

definition fn :: "(int \<Rightarrow> world \<Rightarrow> world) option \<Rightarrow> int \<Rightarrow> world \<Rightarrow> world" where
  "fn d exit_code w = (case d of None \<Rightarrow> w | Some f \<Rightarrow> f 0 w)"

definition run_proc :: "env \<Rightarrow> string list \<Rightarrow> (int \<Rightarrow> world \<Rightarrow> world) option \<Rightarrow> world \<Rightarrow> world" where
  "run_proc e cmd d w =
     (case popen e cmd of
        RaisesOSError errno msg \<Rightarrow>
          (let w1 = (case d of None \<Rightarrow> w | Some f \<Rightarrow> f 1 w);
               w2 = print (unwords (''Running command:'' # cmd @ [[CHR 0x0A]])) w1
           in if errno = Some 12
              then print ''Make sure there is enough space for the SDK (at least 500mb)'' w2
              else if errno = Some 13
              then print ''Permission denied, try modifying the permission of the sdk folder'' w2
              else print (''error: '' @ msg) w2)
      | RaisesException msg \<Rightarrow>
          (let w1 = (case d of None \<Rightarrow> w | Some f \<Rightarrow> f 1 w);
               w2 = print (unwords (''Running command:'' # cmd @ [[CHR 0x0A]])) w1
           in print (unwords [''error:'', msg, [CHR 0x0A]]) w2)
      | Spawned \<Rightarrow> w\<lparr>procs := procs w @ [cmd]\<rparr>)"

subsection \<open>git_clone, git_test, restore_repo\<close>

definition git_clone_cmd :: "string \<Rightarrow> string \<Rightarrow> bool \<Rightarrow> string list" where
  "git_clone_cmd gitn path recursive =
     (if recursive
      then [''git'', ''clone'', ''--recursive'', ''https://github.com/'' @ gitn, path,
            ''--depth'', ''1'', ''--shallow-submodules'', ''--jobs'', ''4'']
      else [''git'', ''clone'', ''https://github.com/'' @ gitn, path, ''--depth'', ''1''])"

text \<open>\<open>git_clone_os\<close> is \<open>git_clone\<close> on platform \<open>pf\<close>; \<open>git_clone\<close> is the function on Windows.\<close>

definition git_clone_os ::
  "platform \<Rightarrow> env \<Rightarrow> (int \<Rightarrow> world \<Rightarrow> world) option \<Rightarrow> string \<Rightarrow> string \<Rightarrow> string \<Rightarrow> bool \<Rightarrow> world \<Rightarrow> error + world" where
  "git_clone_os pf e d p gitn n recursive w =
     (let path = p @ ''/'' @ n in
      and_then
        (if path_exists w path \<and> \<not> path_exists w (path @ ''_backup'')
         then os_rename path (path @ ''_backup'') w else Inr w)
        (\<lambda>w1. and_then
           (if path_exists w1 path then shutil_rmtree_os pf path remove_readonly w1 else Inr w1)
           (\<lambda>w2. Inr (run_proc e (git_clone_cmd gitn path recursive) d w2))))"

definition git_clone ::
  "env \<Rightarrow> (int \<Rightarrow> world \<Rightarrow> world) option \<Rightarrow> string \<Rightarrow> string \<Rightarrow> string \<Rightarrow> bool \<Rightarrow> world \<Rightarrow> error + world" where
  "git_clone e d p gitn n recursive w = git_clone_os Windows e d p gitn n recursive w"

definition git_test :: "env \<Rightarrow> world \<Rightarrow> error + bool \<times> world" where
  "git_test e w =
     (let w1 = print ''Testing if git is working...'' w in
      case version_probe e w1 of
        ProbeRaises msg \<Rightarrow> Inr (False, print msg w1)
      | Undecodable \<Rightarrow> Inl UnicodeDecodeError
      | Output s \<Rightarrow>
          (if re_match git_version_pattern s
           then Inr (True, print ''Test succeeded.'' w1)
           else Inr (False, w1)))"

definition restore_repo :: "string \<Rightarrow> string \<Rightarrow> world \<Rightarrow> error + world" where
  "restore_repo p n w =
     (if path_exists w (p @ ''/'' @ n @ ''_backup'')
      then and_then
             (if path_exists w (p @ ''/'' @ n)
              then shutil_rmtree (p @ ''/'' @ n) remove_readonly w else Inr w)
             (\<lambda>w1. os_rename (p @ ''/'' @ n @ ''_backup'') (p @ ''/'' @ n) w1)
      else Inr w)"

subsection \<open>download_sdk and its callback\<close>

text \<open>
  The nested function \<^verbatim>\<open>done\<close> of \<open>download_sdk\<close> (named \<open>done_cb\<close> here: \<open>done\<close> is a
  word of the proof language), as one call that runs from its first line to its last
  with no other thread in between. The same call as separate steps of a thread is
  \<open>thread_step\<close> below.
\<close>

definition success_msg :: string where
  "success_msg = ''Armory SDK download completed, please restart Blender..''"

definition failed_msg :: string where
  "failed_msg = ''Failed downloading Armory SDK, check console for details.''"

definition done_cb :: "int \<Rightarrow> world \<Rightarrow> world" where
  "done_cb err w =
     (let w1 = w\<lparr>repos_done := repos_done w + 1\<rparr>;
          w2 = (if err = 0 then w1\<lparr>repos_updated := repos_updated w1 + 1\<rparr> else w1)
      in if repos_updated w2 = repos_total w2 then print success_msg w2
         else if repos_done w2 = repos_total w2 then report ERROR failed_msg w2
         else w2)"

datatype retval = CANCELLED | FINISHED | ReturnsNone

definition git_failed_msg :: string where
  "git_failed_msg =
     ''Git test failed. Make sure git is installed (https://git-scm.com/downloads) or is working correctly.''"

definition download_sdk :: "bcontext \<Rightarrow> env \<Rightarrow> world \<Rightarrow> error + retval \<times> world" where
  "download_sdk ctx e w =
     (let sdk = get_sdk_path ctx w in
      if sdk = [] then Inr (CANCELLED, report ERROR ''Configure Armory SDK path first'' w)
      else
        let w1 = report INFO ''Downloading Armory SDK, check console for details.'' w;
            w2 = print ''Armory (add-on v(2020, 8, 0)): Cloning [armory, iron, haxebullet, haxerecast, zui] repositories'' w1
        in
        and_then (if \<not> path_exists w2 sdk then os_makedirs sdk w2 else Inr w2) (\<lambda>w3.
        and_then (os_chdir sdk w3) (\<lambda>w4.
        and_then (git_test e w4) (\<lambda>(ok, w5).
          if \<not> ok
          then Inr (CANCELLED, report ERROR git_failed_msg (print git_failed_msg w5))
          else
            let w6 = w5\<lparr>repos_updated := 0, repos_done := 0, repos_total := 9\<rparr> in
            and_then (git_clone e (Some done_cb) sdk ''armory3d/armory'' ''armory'' False w6) (\<lambda>w7.
            and_then (git_clone e (Some done_cb) sdk ''armory3d/iron'' ''iron'' False w7) (\<lambda>w8.
            and_then (git_clone e (Some done_cb) sdk ''armory3d/haxebullet'' ''lib/haxebullet'' False w8) (\<lambda>w9.
            and_then (git_clone e (Some done_cb) sdk ''armory3d/haxerecast'' ''lib/haxerecast'' False w9) (\<lambda>w10.
            and_then (git_clone e (Some done_cb) sdk ''armory3d/zui'' ''lib/zui'' False w10) (\<lambda>w11.
            and_then (git_clone e (Some done_cb) sdk ''armory3d/armory_tools'' ''lib/armory_tools'' False w11) (\<lambda>w12.
            and_then (git_clone e (Some done_cb) sdk ''armory3d/Kromx_bin'' ''Krom'' False w12) (\<lambda>w13.
            and_then (git_clone e (Some done_cb) sdk ''armory3d/Kha'' ''Kha'' True w13) (\<lambda>w14.
            and_then (git_clone e (Some done_cb) sdk ''armory3d/nodejs_bin/'' ''nodejs'' False w14) (\<lambda>w15.
            Inr (ReturnsNone, w15))))))))))))))"

subsection \<open>ArmAddonRestoreButton.execute\<close>

definition restore_execute :: "bcontext \<Rightarrow> world \<Rightarrow> error + retval \<times> world" where
  "restore_execute ctx w =
     (let sdk = get_sdk_path ctx w in
      if sdk = [] then Inr (CANCELLED, report ERROR ''Configure Armory SDK path first'' w)
      else
        and_then (os_chdir sdk w) (\<lambda>w1.
        and_then (restore_repo sdk ''armory'' w1) (\<lambda>w2.
        and_then (restore_repo sdk ''iron'' w2) (\<lambda>w3.
        and_then (restore_repo sdk ''lib/haxebullet'' w3) (\<lambda>w4.
        and_then (restore_repo sdk ''lib/haxerecast'' w4) (\<lambda>w5.
        and_then (restore_repo sdk ''lib/zui'' w5) (\<lambda>w6.
        and_then (restore_repo sdk ''lib/armory_tools'' w6) (\<lambda>w7.
        and_then (restore_repo sdk ''Kha'' w7) (\<lambda>w8.
        and_then (restore_repo sdk ''Krom'' w8) (\<lambda>w9.
        and_then (restore_repo sdk ''nodejs'' w9) (\<lambda>w10.
        Inr (FINISHED, report INFO ''Restored stable version'' w10))))))))))))"

subsection \<open>A spawned process exits\<close>

text \<open>
  The step the surroundings take when the \<open>i\<close>-th running process exits: what the command
  did to the disk is there, the process is gone, and its waiter thread runs \<open>fn\<close> with
  the callback \<open>d\<close> it was started with, in one piece. \<open>run_event\<close> below splits the
  callback of \<open>download_sdk\<close> into its steps.
\<close>

definition proc_exit :: "env \<Rightarrow> (int \<Rightarrow> world \<Rightarrow> world) option \<Rightarrow> nat \<Rightarrow> world \<Rightarrow> world" where
  "proc_exit e d i w =
     (if i < length (procs w)
      then (case git_run e (procs w ! i) (files w) of
              (exit_code, files') \<Rightarrow>
                fn d exit_code
                  (w\<lparr>files := files', procs := take i (procs w) @ drop (Suc i) (procs w)\<rparr>))
      else w)"

subsection \<open>The callback, one step at a time\<close>







subsection \<open>Batches, runs and scenarios\<close>

text \<open>
  The nine calls of \<open>git_clone\<close> in \<open>download_sdk\<close>, as a list of
  (remote identifier, local path, recursive), and the calls in that order.
\<close>

definition repos :: "(string \<times> string \<times> bool) list" where
  "repos =
     [(''armory3d/armory'', ''armory'', False),
      (''armory3d/iron'', ''iron'', False),
      (''armory3d/haxebullet'', ''lib/haxebullet'', False),
      (''armory3d/haxerecast'', ''lib/haxerecast'', False),
      (''armory3d/zui'', ''lib/zui'', False),
      (''armory3d/armory_tools'', ''lib/armory_tools'', False),
      (''armory3d/Kromx_bin'', ''Krom'', False),
      (''armory3d/Kha'', ''Kha'', True),
      (''armory3d/nodejs_bin/'', ''nodejs'', False)]"

fun clone_all ::
  "env \<Rightarrow> (int \<Rightarrow> world \<Rightarrow> world) option \<Rightarrow> string \<Rightarrow> (string \<times> string \<times> bool) list \<Rightarrow> world \<Rightarrow> error + world" where
  "clone_all e d sdk [] w = Inr w"
| "clone_all e d sdk (r # rs) w =
     and_then (git_clone e d sdk (fst r) (fst (snd r)) (snd (snd r)) w) (clone_all e d sdk rs)"

definition clone_cmds :: "string \<Rightarrow> string list list" where
  "clone_cmds sdk = map (\<lambda>r. git_clone_cmd (fst r) (sdk @ ''/'' @ fst (snd r)) (snd (snd r))) repos"

text \<open>
  A run after \<open>download_sdk\<close> has returned: the spawned processes exit one after the
  other, \<open>is\<close> giving which of the running ones exits at each step.
\<close>

fun run_exits :: "env \<Rightarrow> (int \<Rightarrow> world \<Rightarrow> world) option \<Rightarrow> nat list \<Rightarrow> world \<Rightarrow> world" where
  "run_exits e d [] w = w"
| "run_exits e d (i # is) w = run_exits e d is (proc_exit e d i w)"

text \<open>
  The same nine calls when clones already running exit while later ones are still being
  launched: before the \<open>k\<close>-th call the exits \<open>ss ! k\<close> take place (none when \<open>ss\<close> is
  shorter).
\<close>

fun clone_all_sched ::
  "env \<Rightarrow> (int \<Rightarrow> world \<Rightarrow> world) option \<Rightarrow> string \<Rightarrow> (string \<times> string \<times> bool) list \<Rightarrow>
   nat list list \<Rightarrow> world \<Rightarrow> error + world" where
  "clone_all_sched e d sdk [] ss w = Inr w"
| "clone_all_sched e d sdk (r # rs) ss w =
     and_then
       (git_clone e d sdk (fst r) (fst (snd r)) (snd (snd r))
          (run_exits e d (case ss of [] \<Rightarrow> [] | s # ss' \<Rightarrow> s) w))
       (clone_all_sched e d sdk rs (tl ss))"

text \<open>The two aggregate signals, counted in the console and in the reports.\<close>

definition n_success :: "world \<Rightarrow> nat" where
  "n_success w = count_list (out w) success_msg"

definition n_failed :: "world \<Rightarrow> nat" where
  "n_failed w = count_list (reports w) (ERROR, failed_msg)"

text \<open>
  The counters and signals of a batch of nine with \<open>m\<close> callbacks still to come, \<open>a\<close> and
  \<open>b\<close> being the counts of the two signals before the batch.
\<close>

definition batch_inv :: "nat \<Rightarrow> nat \<Rightarrow> nat \<Rightarrow> world \<Rightarrow> bool" where
  "batch_inv a b m w =
     (repos_total w = 9 \<and> 0 \<le> repos_updated w \<and> repos_updated w \<le> repos_done w \<and>
      repos_done w + int m = 9 \<and>
      (if repos_done w < 9 then n_success w = a \<and> n_failed w = b
       else if repos_updated w = 9 then n_success w = Suc a \<and> n_failed w = b
       else n_success w = a \<and> n_failed w = Suc b))"



text \<open>
  One fetch of a repository, run to its end: \<open>git_clone\<close>, then the process it has
  spawned (the last one started) exits. The round trip of two fetches and a restore.
\<close>

definition fetch ::
  "env \<Rightarrow> string \<Rightarrow> string \<Rightarrow> string \<Rightarrow> bool \<Rightarrow> world \<Rightarrow> error + world" where
  "fetch e p gitn n recursive w =
     and_then (git_clone e (Some done_cb) p gitn n recursive w)
       (\<lambda>w1. Inr (proc_exit e (Some done_cb) (length (procs w1) - 1) w1))"

definition round_trip ::
  "env \<Rightarrow> env \<Rightarrow> string \<Rightarrow> string \<Rightarrow> string \<Rightarrow> bool \<Rightarrow> world \<Rightarrow> error + world" where
  "round_trip e1 e2 p gitn n recursive w =
     and_then (fetch e1 p gitn n recursive w) (\<lambda>w1.
     and_then (fetch e2 p gitn n recursive w1) (\<lambda>w2.
     restore_repo p n w2))"

text \<open>Concrete inputs: an empty disk, a git that answers, a git that is missing.\<close>

definition world0 :: world where
  "world0 = \<lparr>files = (\<lambda>p. None), cwd = [], procs = [], out = [], reports = [],
             repos_updated = 0, repos_total = 0, repos_done = 0\<rparr>"

definition ctx0 :: bcontext where
  "ctx0 = \<lparr>filepath = [], sdk_path = ''sdk'', sep = CHR ''/''\<rparr>"

definition env_ok :: env where
  "env_ok = \<lparr>version_probe = (\<lambda>w. Output ''git version 2.34.1''),
            popen = (\<lambda>cmd. Spawned),
            git_run = (\<lambda>cmd f. (0, f))\<rparr>"


text \<open>
  A git whose clone writes the tree \<open>t\<close> at the destination of the command, and a disk
  that holds an older backup of \<^verbatim>\<open>sdk/armory\<close> and no copy of it.
\<close>

definition env_clone :: "tree \<Rightarrow> env" where
  "env_clone t =
     \<lparr>version_probe = (\<lambda>w. Output ''git version 2.34.1''),
      popen = (\<lambda>cmd. Spawned),
      git_run = (\<lambda>cmd f. (0, f((if cmd ! 2 = ''--recursive'' then cmd ! 4 else cmd ! 3) \<mapsto> t)))\<rparr>"

definition tree_old :: tree where
  "tree_old = [(''README'', File False ''v0'')]"

definition tree_v1 :: tree where
  "tree_v1 = [(''README'', File True ''v1'')]"

definition tree_v2 :: tree where
  "tree_v2 = [(''README'', File True ''v2''), (''src'', Dir False [(''main.hx'', File True ''x'')])]"

definition world_bak :: world where
  "world_bak = world0\<lparr>files := (\<lambda>p. None)(''sdk/armory_backup'' \<mapsto> tree_old)\<rparr>"


text \<open>
  Whether \<^verbatim>\<open>shutil.rmtree\<close> with \<open>remove_readonly\<close> can remove a tree. On POSIX every
  entry has to lie in a directory with write permission (\<open>posix_ok\<close>, \<open>pw\<close> being the
  permission of the directory that holds the entries); on Windows nothing is asked.
\<close>

fun posix_ok_node :: "bool \<Rightarrow> node \<Rightarrow> bool"
  and posix_ok :: "bool \<Rightarrow> (string \<times> node) list \<Rightarrow> bool" where
  "posix_ok_node pw (File ro d) = pw"
| "posix_ok_node pw (Dir ro es) = (posix_ok (\<not> ro) es \<and> pw)"
| "posix_ok pw [] = True"
| "posix_ok pw (ne # es) = (posix_ok_node pw (snd ne) \<and> posix_ok pw es)"

definition deletable :: "platform \<Rightarrow> tree \<Rightarrow> bool" where
  "deletable pf t = (case pf of Windows \<Rightarrow> True | Posix \<Rightarrow> posix_ok True t)"

text \<open>
  A disk with a copy and a backup of \<^verbatim>\<open>sdk/armory\<close>, the copy holding a file in a
  directory without write permission.
\<close>

definition tree_rodir :: tree where
  "tree_rodir = [(''README'', File False ''v1''), (''src'', Dir True [(''main.hx'', File False ''x'')])]"

definition world_rodir :: world where
  "world_rodir =
     world0\<lparr>files := (\<lambda>p. None)(''sdk/armory'' \<mapsto> tree_rodir, ''sdk/armory_backup'' \<mapsto> tree_old)\<rparr>"





section \<open>Basic facts\<close>

lemma and_then_Inr: "and_then (Inr x) f = f x"
  by (simp add: and_then_def)

lemma and_then_Inl: "and_then (Inl x) f = Inl x"
  by (simp add: and_then_def)

lemma and_then_assoc: "and_then (and_then r f) g = and_then r (\<lambda>x. and_then (f x) g)"
  by (cases r) (simp_all add: and_then_def)

lemma download_sdk_clone_all:
  "and_then (git_clone e d sdk ''armory3d/armory'' ''armory'' False w6) (\<lambda>w7.
   and_then (git_clone e d sdk ''armory3d/iron'' ''iron'' False w7) (\<lambda>w8.
   and_then (git_clone e d sdk ''armory3d/haxebullet'' ''lib/haxebullet'' False w8) (\<lambda>w9.
   and_then (git_clone e d sdk ''armory3d/haxerecast'' ''lib/haxerecast'' False w9) (\<lambda>w10.
   and_then (git_clone e d sdk ''armory3d/zui'' ''lib/zui'' False w10) (\<lambda>w11.
   and_then (git_clone e d sdk ''armory3d/armory_tools'' ''lib/armory_tools'' False w11) (\<lambda>w12.
   and_then (git_clone e d sdk ''armory3d/Kromx_bin'' ''Krom'' False w12) (\<lambda>w13.
   and_then (git_clone e d sdk ''armory3d/Kha'' ''Kha'' True w13) (\<lambda>w14.
   and_then (git_clone e d sdk ''armory3d/nodejs_bin/'' ''nodejs'' False w14) (\<lambda>w15.
   Inr (ReturnsNone, w15))))))))))
   = and_then (clone_all e d sdk repos w6) (\<lambda>w15. Inr (ReturnsNone, w15))"
proof -
  have step: "\<And>r rs w g. and_then (clone_all e d sdk (r # rs) w) g =
      and_then (git_clone e d sdk (fst r) (fst (snd r)) (snd (snd r)) w)
        (\<lambda>w'. and_then (clone_all e d sdk rs w') g)"
    by (simp add: and_then_assoc)
  have nil: "\<And>w g. and_then (clone_all e d sdk [] w) g = g w"
    by (simp add: and_then_Inr)
  show ?thesis
    unfolding repos_def step nil fst_conv snd_conv ..
qed


lemma download_sdk_eq:
  assumes "get_sdk_path ctx w \<noteq> []"
  shows "download_sdk ctx e w =
     and_then
       (git_test e
          ((print ''Armory (add-on v(2020, 8, 0)): Cloning [armory, iron, haxebullet, haxerecast, zui] repositories''
             (report INFO ''Downloading Armory SDK, check console for details.'' w))
           \<lparr>files := (if files w (get_sdk_path ctx w) = None
                      then (files w)(get_sdk_path ctx w \<mapsto> []) else files w),
            cwd := get_sdk_path ctx w\<rparr>))
       (\<lambda>(ok, w5).
          if \<not> ok then Inr (CANCELLED, report ERROR git_failed_msg (print git_failed_msg w5))
          else and_then
                 (clone_all e (Some done_cb) (get_sdk_path ctx w) repos
                    (w5\<lparr>repos_updated := 0, repos_done := 0, repos_total := 9\<rparr>))
                 (\<lambda>w15. Inr (ReturnsNone, w15)))"
proof (cases "files w (get_sdk_path ctx w) = None")
  case True
  show ?thesis
    unfolding download_sdk_def Let_def download_sdk_clone_all
    using assms True
    by (simp add: and_then_Inr path_exists_def os_makedirs_def os_chdir_def print_def report_def)
next
  case False
  then obtain t where t: "files w (get_sdk_path ctx w) = Some t"
    by auto
  show ?thesis
    unfolding download_sdk_def Let_def download_sdk_clone_all
    using assms t
    by (simp add: and_then_Inr path_exists_def os_makedirs_def os_chdir_def print_def report_def)
qed


lemma os_remove_chmod_windows:
  "os_remove Windows pw (chmod_write x) =
     (if has_entries x then Inl DirectoryNotEmpty else Inr None)"
  by (cases x) (simp_all add: os_remove_def)

lemma rm_remove_readonly:
  "rm_node Windows remove_readonly pw x = Inr None"
  "rm_entries Windows remove_readonly pw es = Inr []"
  by (induction Windows remove_readonly pw x and Windows remove_readonly pw es
        rule: rm_node_rm_entries.induct)
     (simp_all add: remove_readonly_def os_remove_def)

lemma shutil_rmtree_remove_readonly:
  "files w p = Some t \<Longrightarrow>
   shutil_rmtree p remove_readonly w = Inr (w\<lparr>files := (files w)(p := None)\<rparr>)"
  by (simp add: shutil_rmtree_def shutil_rmtree_os_def rm_remove_readonly del: rm_node.simps)

lemma backup_neq: "p @ ''_backup'' \<noteq> p"
  by (induction p) auto

lemma git_clone_eq:
  "git_clone e d p gitn n r w =
     Inr (run_proc e (git_clone_cmd gitn (p @ ''/'' @ n) r) d
       (w\<lparr>files :=
          (if files w (p @ ''/'' @ n) = None then files w
           else if files w ((p @ ''/'' @ n) @ ''_backup'') = None
           then ((files w)(p @ ''/'' @ n := None))((p @ ''/'' @ n) @ ''_backup'' := files w (p @ ''/'' @ n))
           else (files w)(p @ ''/'' @ n := None))\<rparr>))"
proof (cases "files w (p @ ''/'' @ n)")
  case None
  then show ?thesis
    by (simp add: git_clone_def git_clone_os_def Let_def and_then_Inr path_exists_def)
next
  case (Some t)
  show ?thesis
  proof (cases "files w ((p @ ''/'' @ n) @ ''_backup'')")
    case None
    with Some show ?thesis
      using backup_neq[of "p @ ''/'' @ n"]
      by (simp add: git_clone_def git_clone_os_def Let_def and_then_Inr path_exists_def os_rename_def)
  next
    case (Some b)
    with \<open>files w (p @ ''/'' @ n) = Some t\<close> show ?thesis
      by (simp add: git_clone_def git_clone_os_def Let_def and_then_Inr path_exists_def
            shutil_rmtree_remove_readonly[where t = t, unfolded shutil_rmtree_def])
  qed
qed

lemma done_cb_frame [simp]:
  "procs (done_cb err w) = procs w"
  "files (done_cb err w) = files w"
  "cwd (done_cb err w) = cwd w"
  "repos_total (done_cb err w) = repos_total w"
  "repos_done (done_cb err w) = repos_done w + 1"
  "repos_updated (done_cb err w) = (if err = 0 then repos_updated w + 1 else repos_updated w)"
  by (simp_all add: done_cb_def Let_def print_def report_def)

lemma print_frame [simp]:
  "procs (print l w) = procs w"
  "files (print l w) = files w"
  "cwd (print l w) = cwd w"
  "reports (print l w) = reports w"
  "repos_total (print l w) = repos_total w"
  "repos_done (print l w) = repos_done w"
  "repos_updated (print l w) = repos_updated w"
  "out (print l w) = out w @ [l]"
  by (simp_all add: print_def)

lemma report_frame [simp]:
  "procs (report lv l w) = procs w"
  "files (report lv l w) = files w"
  "cwd (report lv l w) = cwd w"
  "out (report lv l w) = out w"
  "repos_total (report lv l w) = repos_total w"
  "repos_done (report lv l w) = repos_done w"
  "repos_updated (report lv l w) = repos_updated w"
  "reports (report lv l w) = reports w @ [(lv, l)]"
  by (simp_all add: report_def)

lemma run_proc_spawned:
  "popen e c = Spawned \<Longrightarrow> run_proc e c d w = w\<lparr>procs := procs w @ [c]\<rparr>"
  by (simp add: run_proc_def)

lemma running_line_neq:
  "unwords (''Running command:'' # c @ [[CHR 0x0A]]) \<noteq> success_msg"
  by (cases c) (simp_all add: success_msg_def)

lemma n_success_print:
  "n_success (print l w) = (if l = success_msg then Suc (n_success w) else n_success w)"
  by (simp add: n_success_def)

lemma n_failed_print [simp]: "n_failed (print l w) = n_failed w"
  by (simp add: n_failed_def)

lemma n_success_report [simp]: "n_success (report lv l w) = n_success w"
  by (simp add: n_success_def)

lemma n_failed_report:
  "n_failed (report lv l w) = (if (lv, l) = (ERROR, failed_msg) then Suc (n_failed w) else n_failed w)"
  by (simp add: n_failed_def)

lemma run_proc_failed_cb:
  assumes "popen e c \<noteq> Spawned"
  shows "procs (run_proc e c (Some done_cb) w) = procs w"
    and "files (run_proc e c (Some done_cb) w) = files w"
    and "repos_total (run_proc e c (Some done_cb) w) = repos_total w"
    and "repos_done (run_proc e c (Some done_cb) w) = repos_done w + 1"
    and "repos_updated (run_proc e c (Some done_cb) w) = repos_updated w"
    and "n_success (run_proc e c (Some done_cb) w) = n_success (done_cb 1 w)"
    and "n_failed (run_proc e c (Some done_cb) w) = n_failed (done_cb 1 w)"
  using assms
  by (cases "popen e c"; simp add: run_proc_def Let_def n_success_print running_line_neq;
      simp add: success_msg_def)+

section \<open>The clone command\<close>

lemma slash_not_flag:
  "p @ ''/'' @ n \<noteq> ''--recursive''"
  "p @ ''/'' @ n \<noteq> ''--shallow-submodules''"
  "p @ ''/'' @ n \<noteq> ''--jobs''"
proof -
  have "CHR ''/'' \<in> set (p @ ''/'' @ n)" by simp
  moreover have "CHR ''/'' \<notin> set ''--recursive''" "CHR ''/'' \<notin> set ''--shallow-submodules''"
    "CHR ''/'' \<notin> set ''--jobs''" by simp_all
  ultimately show "p @ ''/'' @ n \<noteq> ''--recursive''" "p @ ''/'' @ n \<noteq> ''--shallow-submodules''"
    "p @ ''/'' @ n \<noteq> ''--jobs''" by metis+
qed

text \<open>
  Claim C9. When the spawn succeeds, the process \<open>git_clone\<close> starts runs the command
  \<open>c\<close>: it begins with \<^verbatim>\<open>git clone\<close>, holds the URL \<^verbatim>\<open>https://github.com/\<close> followed
  by the remote identifier, the destination path \<open>p/n\<close>, and \<^verbatim>\<open>--depth 1\<close>. For a recursive
  spec it also holds \<^verbatim>\<open>--recursive\<close>, \<^verbatim>\<open>--shallow-submodules\<close> and \<^verbatim>\<open>--jobs 4\<close>; for a
  non-recursive spec none of \<^verbatim>\<open>--recursive\<close>, \<^verbatim>\<open>--shallow-submodules\<close>, \<^verbatim>\<open>--jobs\<close> is an
  argument of the command.
\<close>

theorem git_clone_command:
  assumes "popen e (git_clone_cmd gitn (p @ ''/'' @ n) recursive) = Spawned"
  shows "\<exists>w' c. git_clone e d p gitn n recursive w = Inr w' \<and> procs w' = procs w @ [c] \<and>
           c = git_clone_cmd gitn (p @ ''/'' @ n) recursive \<and>
           take 2 c = [''git'', ''clone''] \<and>
           ''https://github.com/'' @ gitn \<in> set c \<and>
           p @ ''/'' @ n \<in> set c \<and>
           (\<exists>xs ys. c = xs @ [''--depth'', ''1''] @ ys) \<and>
           (if recursive
            then ''--recursive'' \<in> set c \<and> ''--shallow-submodules'' \<in> set c \<and>
                 (\<exists>xs ys. c = xs @ [''--jobs'', ''4''] @ ys)
            else ''--recursive'' \<notin> set c \<and> ''--shallow-submodules'' \<notin> set c \<and>
                 ''--jobs'' \<notin> set c)"
proof -
  let ?path = "p @ ''/'' @ n"
  let ?c = "git_clone_cmd gitn ?path recursive"
  have run: "\<exists>w'. git_clone e d p gitn n recursive w = Inr w' \<and> procs w' = procs w @ [?c]"
    using assms by (simp add: git_clone_eq run_proc_spawned)
  have depth: "\<exists>xs ys. ?c = xs @ [''--depth'', ''1''] @ ys"
  proof (cases recursive)
    case True
    have "?c = [''git'', ''clone'', ''--recursive'', ''https://github.com/'' @ gitn, ?path]
        @ [''--depth'', ''1''] @ [''--shallow-submodules'', ''--jobs'', ''4'']"
      using True by (simp add: git_clone_cmd_def)
    then show ?thesis by blast
  next
    case False
    have "?c = [''git'', ''clone'', ''https://github.com/'' @ gitn, ?path] @ [''--depth'', ''1''] @ []"
      using False by (simp add: git_clone_cmd_def)
    then show ?thesis by blast
  qed
  have flags: "if recursive
            then ''--recursive'' \<in> set ?c \<and> ''--shallow-submodules'' \<in> set ?c \<and>
                 (\<exists>xs ys. ?c = xs @ [''--jobs'', ''4''] @ ys)
            else ''--recursive'' \<notin> set ?c \<and> ''--shallow-submodules'' \<notin> set ?c \<and>
                 ''--jobs'' \<notin> set ?c"
  proof (cases recursive)
    case True
    have "?c = [''git'', ''clone'', ''--recursive'', ''https://github.com/'' @ gitn, ?path,
        ''--depth'', ''1'', ''--shallow-submodules''] @ [''--jobs'', ''4''] @ []"
      using True by (simp add: git_clone_cmd_def)
    then have "\<exists>xs ys. ?c = xs @ [''--jobs'', ''4''] @ ys" by blast
    then show ?thesis using True by (simp add: git_clone_cmd_def)
  next
    case False
    then show ?thesis
      using slash_not_flag[of p n] by (simp add: git_clone_cmd_def)
  qed
  have basics: "take 2 ?c = [''git'', ''clone'']" "''https://github.com/'' @ gitn \<in> set ?c"
    "?path \<in> set ?c"
    by (simp_all add: git_clone_cmd_def)
  from run depth flags basics show ?thesis by blast
qed

theorem git_clone_command_witness:
  "popen env_ok (git_clone_cmd ''armory3d/Kha'' (''sdk'' @ ''/'' @ ''Kha'') True) = Spawned \<and>
   (\<exists>w'. git_clone env_ok None ''sdk'' ''armory3d/Kha'' ''Kha'' True world0 = Inr w' \<and>
      procs w' = [[''git'', ''clone'', ''--recursive'', ''https://github.com/armory3d/Kha'',
                   ''sdk/Kha'', ''--depth'', ''1'', ''--shallow-submodules'', ''--jobs'', ''4'']])"
proof -
  have h: "popen env_ok (git_clone_cmd ''armory3d/Kha'' (''sdk'' @ ''/'' @ ''Kha'') True) = Spawned"
    by (simp add: env_ok_def)
  from git_clone_command[OF h, of None world0] h show ?thesis
    by (auto simp: git_clone_cmd_def world0_def)
qed

section \<open>The capability probe\<close>

text \<open>
  Claim C8, at the output \<^verbatim>\<open>git version 12345\<close>: no dot separates the digits, and
  \<open>git_test\<close> returns \<open>True\<close>. The dots of the pattern are not escaped, so each stands
  for any character.
\<close>

theorem git_test_accepts_undotted:
  "git_test (e\<lparr>version_probe := (\<lambda>w. Output ''git version 12345'')\<rparr>) w =
     Inr (True, print ''Test succeeded.'' (print ''Testing if git is working...'' w))"
  by (simp add: git_test_def Let_def re_match_def git_version_pattern_def)

section \<open>Preparing the target, and restoring\<close>

lemma rm_posix:
  "rm_node Posix remove_readonly pw x =
     (if posix_ok_node pw x then Inr None else Inl PermissionError)"
  "rm_entries Posix remove_readonly pw es =
     (if posix_ok pw es then Inr [] else Inl PermissionError)"
  by (induction Posix remove_readonly pw x and Posix remove_readonly pw es
        rule: rm_node_rm_entries.induct)
     (simp_all add: remove_readonly_def os_remove_def)

lemma rm_deletable:
  "rm_node pf remove_readonly True (Dir False t) =
     (if deletable pf t then Inr None else Inl PermissionError)"
proof (cases pf)
  case Windows
  then show ?thesis
    by (simp add: deletable_def rm_remove_readonly del: rm_node.simps)
next
  case Posix
  then show ?thesis
    by (simp add: deletable_def rm_posix del: rm_node.simps)
qed

lemma shutil_rmtree_os_remove_readonly:
  "files w p = Some t \<Longrightarrow>
   shutil_rmtree_os pf p remove_readonly w =
     (if deletable pf t then Inr (w\<lparr>files := (files w)(p := None)\<rparr>) else Inl PermissionError)"
  by (simp add: shutil_rmtree_os_def rm_deletable del: rm_node.simps)

lemma git_clone_os_eq:
  "git_clone_os pf e d p gitn n recursive w =
     (case files w (p @ ''/'' @ n) of
        None \<Rightarrow> Inr (run_proc e (git_clone_cmd gitn (p @ ''/'' @ n) recursive) d w)
      | Some t \<Rightarrow>
          if files w (p @ ''/'' @ n @ ''_backup'') = None
          then Inr (run_proc e (git_clone_cmd gitn (p @ ''/'' @ n) recursive) d
                 (w\<lparr>files := (files w)(p @ ''/'' @ n := None, p @ ''/'' @ n @ ''_backup'' \<mapsto> t)\<rparr>))
          else if deletable pf t
          then Inr (run_proc e (git_clone_cmd gitn (p @ ''/'' @ n) recursive) d
                 (w\<lparr>files := (files w)(p @ ''/'' @ n := None)\<rparr>))
          else Inl PermissionError)"
proof (cases "files w (p @ ''/'' @ n)")
  case None
  then show ?thesis
    by (simp add: git_clone_os_def Let_def and_then_Inr path_exists_def)
next
  case (Some t)
  show ?thesis
  proof (cases "files w ((p @ ''/'' @ n) @ ''_backup'')")
    case None
    with Some show ?thesis
      using backup_neq[of "p @ ''/'' @ n"]
      by (simp add: git_clone_os_def Let_def and_then_Inr path_exists_def os_rename_def)
  next
    case (Some b)
    with \<open>files w (p @ ''/'' @ n) = Some t\<close> show ?thesis
      by (simp add: git_clone_os_def Let_def and_then_Inr and_then_Inl path_exists_def
            shutil_rmtree_os_remove_readonly[where t = t])
  qed
qed

text \<open>
  Claim C5, as amended. Before it launches the clone, \<open>git_clone\<close> on platform \<open>pf\<close>
  (\<open>git_clone_os pf\<close>; \<open>git_clone\<close> itself is the function on Windows) treats the target
  \<open>p/n\<close> as follows. A missing target changes nothing. A target that
  exists while \<open>p/n_backup\<close> does not is renamed to \<open>p/n_backup\<close>. A target that exists
  beside a backup is deleted recursively; the clone is launched when the deletion
  succeeds, and otherwise \<open>git_clone\<close> raises the permission error and launches nothing.
  When removing an entry fails, \<open>remove_readonly\<close> clears the read-only flag of that
  entry and calls the failed function on it once more. On Windows, where the entry's
  own attribute is what refuses the removal, this removes every tree; without a handler
  a read-only file stops the deletion, a handler that returns without retrying leaves
  the file in place, and so does one that only clears the flag. On POSIX a read-only
  file in a writable directory is removed without any handler, and an entry of a
  directory without write permission is not removed by \<open>remove_readonly\<close> either: the
  retry fails and its permission error is raised.
\<close>

theorem git_clone_prepares_target:
  "git_clone_os pf e d p gitn n recursive w =
     (case files w (p @ ''/'' @ n) of
        None \<Rightarrow> Inr (run_proc e (git_clone_cmd gitn (p @ ''/'' @ n) recursive) d w)
      | Some t \<Rightarrow>
          if files w (p @ ''/'' @ n @ ''_backup'') = None
          then Inr (run_proc e (git_clone_cmd gitn (p @ ''/'' @ n) recursive) d
                 (w\<lparr>files := (files w)(p @ ''/'' @ n := None, p @ ''/'' @ n @ ''_backup'' \<mapsto> t)\<rparr>))
          else if deletable pf t
          then Inr (run_proc e (git_clone_cmd gitn (p @ ''/'' @ n) recursive) d
                 (w\<lparr>files := (files w)(p @ ''/'' @ n := None)\<rparr>))
          else Inl PermissionError)
   \<and> git_clone e d p gitn n recursive w = git_clone_os Windows e d p gitn n recursive w
   \<and> remove_readonly func x excinfo = func (chmod_write x)
   \<and> readonly (chmod_write x) = False
   \<and> rm_entries Windows remove_readonly pw es = Inr []
   \<and> rm_entries Posix remove_readonly pw es =
        (if posix_ok pw es then Inr [] else Inl PermissionError)
   \<and> rm_entries Windows onerror_raise pw [(name, File True content)] = Inl PermissionError
   \<and> rm_entries Windows (\<lambda>func x excinfo. Inr (Some x)) pw [(name, File True content)]
        = Inr [(name, File True content)]
   \<and> rm_entries Windows (\<lambda>func x excinfo. Inr (Some (chmod_write x))) pw [(name, File True content)]
        = Inr [(name, File False content)]
   \<and> rm_entries Posix onerror_raise True [(name, File True content)] = Inr []
   \<and> rm_entries Posix remove_readonly False [(name, File ro content)] = Inl PermissionError"
proof -
  have handler: "remove_readonly func x excinfo = func (chmod_write x)"
    by (simp add: remove_readonly_def)
  have cleared: "readonly (chmod_write x) = False"
    by (cases x) simp_all
  have plain: "rm_entries Windows onerror_raise pw [(name, File True content)] = Inl PermissionError"
    by (simp add: onerror_raise_def os_remove_def)
  have idle: "rm_entries Windows (\<lambda>func x excinfo. Inr (Some x)) pw [(name, File True content)]
        = Inr [(name, File True content)]"
    by (simp add: os_remove_def)
  have only_chmod: "rm_entries Windows (\<lambda>func x excinfo. Inr (Some (chmod_write x))) pw
        [(name, File True content)] = Inr [(name, File False content)]"
    by (simp add: os_remove_def)
  have posix_plain: "rm_entries Posix onerror_raise True [(name, File True content)] = Inr []"
    by (simp add: os_remove_def)
  have posix_dir: "rm_entries Posix remove_readonly False [(name, File ro content)] = Inl PermissionError"
    using rm_posix(2)[of False "[(name, File ro content)]"] by simp
  have win: "git_clone e d p gitn n recursive w = git_clone_os Windows e d p gitn n recursive w"
    by (simp add: git_clone_def)
  from git_clone_os_eq[of pf e d p gitn n recursive w] win handler cleared
    rm_remove_readonly(2)[of pw es] rm_posix(2)[of pw es] plain idle only_chmod posix_plain posix_dir
  show ?thesis by blast
qed

text \<open>
  Claim C5, as stated, on POSIX at a disk where \<^verbatim>\<open>sdk/armory\<close> and its backup exist and
  the copy holds a file in a directory without write permission: the deletion does not
  succeed, \<open>git_clone\<close> raises \<open>PermissionError\<close>.
\<close>

theorem git_clone_permission_counterexample:
  "files world_rodir ''sdk/armory'' = Some tree_rodir \<and>
   files world_rodir ''sdk/armory_backup'' = Some tree_old \<and>
   git_clone_os Posix env_ok (Some done_cb) ''sdk'' ''armory3d/armory'' ''armory'' False world_rodir
     = Inl PermissionError"
proof -
  have a: "files world_rodir (''sdk'' @ ''/'' @ ''armory'') = Some tree_rodir"
    "files world_rodir (''sdk'' @ ''/'' @ ''armory'' @ ''_backup'') = Some tree_old"
    by (simp_all add: world_rodir_def world0_def)
  have "\<not> deletable Posix tree_rodir"
    by (simp add: deletable_def tree_rodir_def)
  with a show ?thesis
    by (simp add: git_clone_os_eq)
qed

lemma restore_repo_eq:
  "restore_repo p n w =
     Inr (if files w (p @ ''/'' @ n @ ''_backup'') = None then w
          else w\<lparr>files := (files w)(p @ ''/'' @ n @ ''_backup'' := None,
                                   p @ ''/'' @ n := files w (p @ ''/'' @ n @ ''_backup''))\<rparr>)"
proof (cases "files w (p @ ''/'' @ n @ ''_backup'')")
  case None
  then show ?thesis by (simp add: restore_repo_def path_exists_def)
next
  case (Some b)
  note b = this
  have neq: "p @ ''/'' @ n @ ''_backup'' \<noteq> p @ ''/'' @ n"
    using backup_neq[of "p @ ''/'' @ n"] by simp
  show ?thesis
  proof (cases "files w (p @ ''/'' @ n)")
    case None
    with b neq show ?thesis
      by (simp add: restore_repo_def path_exists_def and_then_Inr os_rename_def fun_upd_twist)
  next
    case (Some t)
    with b neq show ?thesis
      by (simp add: restore_repo_def path_exists_def and_then_Inr os_rename_def
            shutil_rmtree_remove_readonly[where t = t] fun_upd_twist)
  qed
qed


section \<open>Fetch, fetch again, restore\<close>

lemma fn_done_cb_frame [simp]:
  "files (fn (Some done_cb) code w) = files w"
  "procs (fn (Some done_cb) code w) = procs w"
  by (simp_all add: fn_def)

lemma fetch_eq:
  assumes "popen e (git_clone_cmd gitn (p @ ''/'' @ n) r) = Spawned"
  shows "\<exists>w'. fetch e p gitn n r w = Inr w' \<and> procs w' = procs w \<and>
     files w' = snd (git_run e (git_clone_cmd gitn (p @ ''/'' @ n) r)
        (if files w (p @ ''/'' @ n) = None then files w
         else if files w (p @ ''/'' @ n @ ''_backup'') = None
         then (files w)(p @ ''/'' @ n := None, p @ ''/'' @ n @ ''_backup'' := files w (p @ ''/'' @ n))
         else (files w)(p @ ''/'' @ n := None)))"
  using assms
  by (simp add: fetch_def git_clone_eq and_then_Inr run_proc_spawned proc_exit_def
      split: prod.splits)

text \<open>
  Claim C7, as amended. Neither \<open>p/n\<close> nor \<open>p/n_backup\<close> exists at the start; both
  clones are spawned, the first writes the tree \<open>t1\<close> at \<open>p/n\<close>, the second \<open>t2\<close>. After
  fetch, fetch and \<open>restore_repo\<close>, \<open>p/n\<close> holds \<open>t1\<close>, \<open>p/n_backup\<close> is gone, and the rest
  of the disk is as it was.
\<close>

theorem round_trip_restores_first_clone:
  assumes "files w (p @ ''/'' @ n) = None"
    and "files w (p @ ''/'' @ n @ ''_backup'') = None"
    and "popen e1 (git_clone_cmd gitn (p @ ''/'' @ n) r) = Spawned"
    and "popen e2 (git_clone_cmd gitn (p @ ''/'' @ n) r) = Spawned"
    and "\<And>f. snd (git_run e1 (git_clone_cmd gitn (p @ ''/'' @ n) r) f) = f(p @ ''/'' @ n \<mapsto> t1)"
    and "\<And>f. snd (git_run e2 (git_clone_cmd gitn (p @ ''/'' @ n) r) f) = f(p @ ''/'' @ n \<mapsto> t2)"
  shows "\<exists>w'. round_trip e1 e2 p gitn n r w = Inr w' \<and>
           files w' (p @ ''/'' @ n) = Some t1 \<and>
           files w' (p @ ''/'' @ n @ ''_backup'') = None \<and>
           files w' = (files w)(p @ ''/'' @ n \<mapsto> t1)"
proof -
  let ?P = "p @ ''/'' @ n"
  let ?B = "p @ ''/'' @ n @ ''_backup''"
  have neq: "?B \<noteq> ?P"
    using backup_neq[of ?P] by simp
  obtain w1 where w1: "fetch e1 p gitn n r w = Inr w1"
    and f1: "files w1 = (files w)(?P \<mapsto> t1)"
    using fetch_eq[OF assms(3), of w] assms(1) assms(5) by auto
  have f1P: "files w1 ?P = Some t1" and f1B: "files w1 ?B = None"
    using f1 neq assms(2) by simp_all
  obtain w2 where w2: "fetch e2 p gitn n r w1 = Inr w2"
    and f2: "files w2 = ((files w1)(?P := None, ?B := Some t1))(?P \<mapsto> t2)"
    using fetch_eq[OF assms(4), of w1] f1P f1B assms(6) by auto
  have f2B: "files w2 ?B = Some t1"
    using f2 neq by simp
  have r: "restore_repo p n w2 = Inr (w2\<lparr>files := (files w2)(?B := None, ?P := Some t1)\<rparr>)"
    using restore_repo_eq[of p n w2] f2B by simp
  have fin: "(files w2)(?B := None, ?P := Some t1) = (files w)(?P \<mapsto> t1)"
    using f2 f1 neq assms(2) by (auto simp: fun_eq_iff)
  have "round_trip e1 e2 p gitn n r w = Inr (w2\<lparr>files := (files w)(?P \<mapsto> t1)\<rparr>)"
    using w1 w2 r fin by (simp add: round_trip_def and_then_Inr)
  then show ?thesis
    using neq assms(2) by simp
qed

theorem round_trip_restores_first_clone_witness:
  "files world0 ''sdk/armory'' = None \<and> files world0 ''sdk/armory_backup'' = None \<and>
   map_sum id (\<lambda>w'. (files w' ''sdk/armory'', files w' ''sdk/armory_backup''))
     (round_trip (env_clone tree_v1) (env_clone tree_v2) ''sdk'' ''armory3d/armory'' ''armory'' False
        world0)
     = Inr (Some tree_v1, None)"
proof -
  have a: "files world0 (''sdk'' @ ''/'' @ ''armory'') = None"
    "files world0 (''sdk'' @ ''/'' @ ''armory'' @ ''_backup'') = None"
    by (simp_all add: world0_def)
  have c: "popen (env_clone t) (git_clone_cmd ''armory3d/armory'' (''sdk'' @ ''/'' @ ''armory'') False)
      = Spawned" for t
    by (simp add: env_clone_def)
  have g: "snd (git_run (env_clone t)
        (git_clone_cmd ''armory3d/armory'' (''sdk'' @ ''/'' @ ''armory'') False) f)
      = f(''sdk'' @ ''/'' @ ''armory'' \<mapsto> t)" for t f
    by (simp add: env_clone_def git_clone_cmd_def)
  from round_trip_restores_first_clone[OF a c[of tree_v1] c[of tree_v2] g[of tree_v1] g[of tree_v2]]
  obtain w' where "round_trip (env_clone tree_v1) (env_clone tree_v2) ''sdk'' ''armory3d/armory''
        ''armory'' False world0 = Inr w'"
    and "files w' ''sdk/armory'' = Some tree_v1" and "files w' ''sdk/armory_backup'' = None"
    by auto
  then show ?thesis
    using a by simp
qed

text \<open>
  Claim C7, as stated, at a disk with no \<^verbatim>\<open>sdk/armory\<close> and an older
  \<^verbatim>\<open>sdk/armory_backup\<close>: the second fetch finds the backup, does not rename the first
  clone and deletes it; the restore puts the older backup at \<^verbatim>\<open>sdk/armory\<close>, not the
  first clone.
\<close>

theorem round_trip_old_backup_counterexample:
  "files world_bak ''sdk/armory'' = None \<and>
   map_sum id (\<lambda>w'. (files w' ''sdk/armory'', files w' ''sdk/armory_backup''))
     (round_trip (env_clone tree_v1) (env_clone tree_v2) ''sdk'' ''armory3d/armory'' ''armory'' False
        world_bak)
     = Inr (Some tree_old, None) \<and>
   tree_old \<noteq> tree_v1"
proof -
  have c: "popen (env_clone t) c = Spawned" for t c
    by (simp add: env_clone_def)
  have g: "snd (git_run (env_clone t) (git_clone_cmd ''armory3d/armory'' (''sdk'' @ ''/'' @ ''armory'') False) f)
      = f(''sdk/armory'' \<mapsto> t)" for t f
    by (simp add: env_clone_def git_clone_cmd_def)
  have b0: "files world_bak ''sdk/armory'' = None"
    "files world_bak ''sdk/armory_backup'' = Some tree_old"
    by (simp_all add: world_bak_def world0_def)
  obtain w1 where w1: "fetch (env_clone tree_v1) ''sdk'' ''armory3d/armory'' ''armory'' False world_bak = Inr w1"
    and f1: "files w1 = (files world_bak)(''sdk/armory'' \<mapsto> tree_v1)"
    using fetch_eq[OF c[of tree_v1], where gitn = "''armory3d/armory''" and p = "''sdk''"
        and n = "''armory''" and r = False and w = world_bak] b0 g
    by auto
  have f1': "files w1 ''sdk/armory'' = Some tree_v1" "files w1 ''sdk/armory_backup'' = Some tree_old"
    using f1 b0 by simp_all
  obtain w2 where w2: "fetch (env_clone tree_v2) ''sdk'' ''armory3d/armory'' ''armory'' False w1 = Inr w2"
    and f2: "files w2 = ((files w1)(''sdk/armory'' := None))(''sdk/armory'' \<mapsto> tree_v2)"
    using fetch_eq[OF c[of tree_v2], where gitn = "''armory3d/armory''" and p = "''sdk''"
        and n = "''armory''" and r = False and w = w1] f1' g
    by auto
  have f2': "files w2 ''sdk/armory_backup'' = Some tree_old"
    using f2 f1' by simp
  have r: "restore_repo ''sdk'' ''armory'' w2 =
      Inr (w2\<lparr>files := (files w2)(''sdk/armory_backup'' := None, ''sdk/armory'' := Some tree_old)\<rparr>)"
    using restore_repo_eq[of "''sdk''" "''armory''" w2] f2' by simp
  have "round_trip (env_clone tree_v1) (env_clone tree_v2) ''sdk'' ''armory3d/armory'' ''armory'' False
        world_bak = Inr (w2\<lparr>files := (files w2)(''sdk/armory_backup'' := None, ''sdk/armory'' := Some tree_old)\<rparr>)"
    using w1 w2 r by (simp add: round_trip_def and_then_Inr)
  then show ?thesis
    using b0 by (simp add: tree_old_def tree_v1_def)
qed

section \<open>The batch\<close>

lemma git_test_cases:
  "version_probe e (print ''Testing if git is working...'' w) = ProbeRaises msg \<Longrightarrow>
     git_test e w = Inr (False, print msg (print ''Testing if git is working...'' w))"
  "version_probe e (print ''Testing if git is working...'' w) = Output s \<Longrightarrow>
     \<not> re_match git_version_pattern s \<Longrightarrow>
     git_test e w = Inr (False, print ''Testing if git is working...'' w)"
  "version_probe e (print ''Testing if git is working...'' w) = Output s \<Longrightarrow>
     re_match git_version_pattern s \<Longrightarrow>
     git_test e w = Inr (True, print ''Test succeeded.'' (print ''Testing if git is working...'' w))"
  "version_probe e (print ''Testing if git is working...'' w) = Undecodable \<Longrightarrow>
     git_test e w = Inl UnicodeDecodeError"
  by (simp_all add: git_test_def Let_def)




lemma batch_inv_cong:
  "repos_total v = repos_total w \<Longrightarrow> repos_done v = repos_done w \<Longrightarrow>
   repos_updated v = repos_updated w \<Longrightarrow> n_success v = n_success w \<Longrightarrow>
   n_failed v = n_failed w \<Longrightarrow> batch_inv a b m v = batch_inv a b m w"
  by (simp add: batch_inv_def)

lemma n_frame [simp]:
  "n_success (w\<lparr>files := F\<rparr>) = n_success w" "n_failed (w\<lparr>files := F\<rparr>) = n_failed w"
  "n_success (w\<lparr>procs := ps\<rparr>) = n_success w" "n_failed (w\<lparr>procs := ps\<rparr>) = n_failed w"
  "n_success (w\<lparr>repos_done := x\<rparr>) = n_success w" "n_failed (w\<lparr>repos_done := x\<rparr>) = n_failed w"
  "n_success (w\<lparr>repos_updated := x\<rparr>) = n_success w" "n_failed (w\<lparr>repos_updated := x\<rparr>) = n_failed w"
  "n_success (w\<lparr>repos_total := x\<rparr>) = n_success w" "n_failed (w\<lparr>repos_total := x\<rparr>) = n_failed w"
  "n_success (w\<lparr>cwd := y\<rparr>) = n_success w" "n_failed (w\<lparr>cwd := y\<rparr>) = n_failed w"
  by (simp_all add: n_success_def n_failed_def)

lemma batch_inv_done_cb:
  assumes "batch_inv a b (Suc m) w"
  shows "batch_inv a b m (done_cb err w)"
proof -
  from assms have t: "repos_total w = 9" and u: "0 \<le> repos_updated w"
    "repos_updated w \<le> repos_done w" and d: "repos_done w + int (Suc m) = 9"
    and s: "n_success w = a" "n_failed w = b"
    by (auto simp: batch_inv_def split: if_splits)
  show ?thesis
    using t u d s
    by (auto simp: batch_inv_def done_cb_def Let_def n_success_print n_failed_report
          success_msg_def failed_msg_def)
qed

lemma batch_inv_frame [simp]:
  "batch_inv a b m (w\<lparr>files := F\<rparr>) = batch_inv a b m w"
  "batch_inv a b m (w\<lparr>procs := ps\<rparr>) = batch_inv a b m w"
  by (simp_all add: batch_inv_def)

lemma batch_inv_run_proc:
  assumes "batch_inv a b (length (procs w) + Suc k) w"
  shows "batch_inv a b (length (procs (run_proc e c (Some done_cb) w)) + k)
           (run_proc e c (Some done_cb) w)"
proof (cases "popen e c = Spawned")
  case True
  with assms show ?thesis by (simp add: run_proc_spawned)
next
  case False
  have "batch_inv a b (length (procs w) + k) (done_cb 1 w)"
    using assms by (simp add: batch_inv_done_cb)
  moreover have "batch_inv a b (length (procs w) + k) (run_proc e c (Some done_cb) w)
      = batch_inv a b (length (procs w) + k) (done_cb 1 w)"
    by (rule batch_inv_cong) (simp_all add: run_proc_failed_cb[OF False])
  ultimately show ?thesis
    by (simp add: run_proc_failed_cb[OF False])
qed


lemma proc_exit_valid:
  "i < length (procs w) \<Longrightarrow>
   proc_exit e d i w =
     fn d (fst (git_run e (procs w ! i) (files w)))
       (w\<lparr>files := snd (git_run e (procs w ! i) (files w)),
          procs := take i (procs w) @ drop (Suc i) (procs w)\<rparr>)"
  by (simp add: proc_exit_def split: prod.splits)

lemma batch_inv_proc_exit:
  assumes "batch_inv a b (length (procs w)) w"
  shows "batch_inv a b (length (procs (proc_exit e (Some done_cb) i w)))
           (proc_exit e (Some done_cb) i w)"
proof (cases "i < length (procs w)")
  case False
  with assms show ?thesis by (simp add: proc_exit_def)
next
  case True
  define F where "F = snd (git_run e (procs w ! i) (files w))"
  let ?ps = "take i (procs w) @ drop (Suc i) (procs w)"
  have len: "length (procs w) = Suc (length ?ps)"
    using True by simp
  have pe: "proc_exit e (Some done_cb) i w = done_cb 0 (w\<lparr>files := F, procs := ?ps\<rparr>)"
    unfolding F_def proc_exit_valid[OF True] by (simp add: fn_def)
  from assms have "batch_inv a b (Suc (length ?ps)) w"
    by (simp only: len[symmetric])
  then have "batch_inv a b (Suc (length ?ps)) (w\<lparr>files := F, procs := ?ps\<rparr>)"
    by (simp only: batch_inv_frame)
  then have "batch_inv a b (length ?ps) (done_cb 0 (w\<lparr>files := F, procs := ?ps\<rparr>))"
    by (rule batch_inv_done_cb)
  moreover have "procs (w\<lparr>files := F, procs := ?ps\<rparr>) = ?ps"
    by simp
  ultimately show ?thesis
    unfolding pe by (simp only: done_cb_frame)
qed

lemma batch_inv_run_exits:
  "batch_inv a b (length (procs w)) w \<Longrightarrow>
   batch_inv a b (length (procs (run_exits e (Some done_cb) is w)))
     (run_exits e (Some done_cb) is w)"
  by (induction "is" arbitrary: w) (simp_all add: batch_inv_proc_exit)





lemma ctx0_sdk: "get_sdk_path ctx0 world0 = ''sdk''"
  by (simp add: get_sdk_path_def get_fp_def ctx0_def world0_def path_exists_def)



section \<open>The callback of run_proc\<close>






section \<open>The probe and the SDK root\<close>

lemma git_test_fails_frame:
  assumes "version_probe e (print ''Testing if git is working...'' w) = ProbeRaises msg \<or>
           (version_probe e (print ''Testing if git is working...'' w) = Output s \<and>
            \<not> re_match git_version_pattern s)"
  shows "\<exists>w'. git_test e w = Inr (False, w') \<and> files w' = files w \<and> cwd w' = cwd w \<and>
           procs w' = procs w \<and> reports w' = reports w \<and> repos_done w' = repos_done w \<and>
           repos_updated w' = repos_updated w \<and> repos_total w' = repos_total w"
  using assms by (auto simp: git_test_cases)




lemma length_clone_cmds: "length (clone_cmds sdk) = 9"
  by (simp add: clone_cmds_def repos_def)



text \<open>
  Claim C10. With an SDK path configured and no directory there, when the probe fails in
  the world where the directory exists and is the working directory, \<open>download_sdk\<close>
  returns \<^verbatim>\<open>{"CANCELLED"}\<close> with the error reported, and leaves the new, empty SDK
  directory and the changed working directory behind: the disk is not the one it
  started with. With an empty SDK path, \<open>download_sdk\<close> only reports "Configure Armory
  SDK path first": the result does not depend on the surroundings \<open>e\<close>, and disk, working
  directory, processes and console are unchanged.
\<close>

theorem download_sdk_creates_root:
  "(get_sdk_path ctx w \<noteq> [] \<and> files w (get_sdk_path ctx w) = None \<and>
    (\<forall>w'. cwd w' = get_sdk_path ctx w \<and> files w' = (files w)(get_sdk_path ctx w \<mapsto> []) \<longrightarrow>
        version_probe e w' = ProbeRaises msg \<or>
        (version_probe e w' = Output s \<and> \<not> re_match git_version_pattern s)) \<longrightarrow>
    (\<exists>w'. download_sdk ctx e w = Inr (CANCELLED, w') \<and>
       last (reports w') = (ERROR, git_failed_msg) \<and>
       files w' = (files w)(get_sdk_path ctx w \<mapsto> []) \<and> files w' \<noteq> files w \<and>
       cwd w' = get_sdk_path ctx w \<and> procs w' = procs w))
   \<and> (get_sdk_path ctx w = [] \<longrightarrow>
        download_sdk ctx e w = Inr (CANCELLED, report ERROR ''Configure Armory SDK path first'' w) \<and>
        files (report ERROR ''Configure Armory SDK path first'' w) = files w \<and>
        cwd (report ERROR ''Configure Armory SDK path first'' w) = cwd w \<and>
        procs (report ERROR ''Configure Armory SDK path first'' w) = procs w \<and>
        out (report ERROR ''Configure Armory SDK path first'' w) = out w)"
proof -
  have a: "\<exists>w'. download_sdk ctx e w = Inr (CANCELLED, w') \<and>
       last (reports w') = (ERROR, git_failed_msg) \<and>
       files w' = (files w)(get_sdk_path ctx w \<mapsto> []) \<and> files w' \<noteq> files w \<and>
       cwd w' = get_sdk_path ctx w \<and> procs w' = procs w"
    if sdk: "get_sdk_path ctx w \<noteq> []" and absent: "files w (get_sdk_path ctx w) = None"
      and f: "\<forall>w'. cwd w' = get_sdk_path ctx w \<and> files w' = (files w)(get_sdk_path ctx w \<mapsto> []) \<longrightarrow>
        version_probe e w' = ProbeRaises msg \<or>
        (version_probe e w' = Output s \<and> \<not> re_match git_version_pattern s)"
  proof -
    let ?w4 = "(print ''Armory (add-on v(2020, 8, 0)): Cloning [armory, iron, haxebullet, haxerecast, zui] repositories''
             (report INFO ''Downloading Armory SDK, check console for details.'' w))
           \<lparr>files := (if files w (get_sdk_path ctx w) = None
                      then (files w)(get_sdk_path ctx w \<mapsto> []) else files w),
            cwd := get_sdk_path ctx w\<rparr>"
    have "cwd (print ''Testing if git is working...'' ?w4) = get_sdk_path ctx w \<and>
      files (print ''Testing if git is working...'' ?w4) = (files w)(get_sdk_path ctx w \<mapsto> [])"
      using absent by simp
    with f have "version_probe e (print ''Testing if git is working...'' ?w4) = ProbeRaises msg \<or>
        (version_probe e (print ''Testing if git is working...'' ?w4) = Output s \<and>
         \<not> re_match git_version_pattern s)"
      by blast
    from git_test_fails_frame[OF this] obtain w5 where
      gt: "git_test e ?w4 = Inr (False, w5)" and fr: "files w5 = files ?w4" "cwd w5 = cwd ?w4"
      "procs w5 = procs ?w4"
      by blast
    let ?w' = "report ERROR git_failed_msg (print git_failed_msg w5)"
    have d: "download_sdk ctx e w = Inr (CANCELLED, ?w')"
      unfolding download_sdk_eq[OF sdk] gt by (simp add: and_then_Inr)
    have fs: "files ?w' = (files w)(get_sdk_path ctx w \<mapsto> [])"
      using fr absent by simp
    have "files ?w' (get_sdk_path ctx w) \<noteq> files w (get_sdk_path ctx w)"
      unfolding fs using absent by simp
    then have ne: "files ?w' \<noteq> files w"
      by metis
    have "last (reports ?w') = (ERROR, git_failed_msg)" "cwd ?w' = get_sdk_path ctx w"
      "procs ?w' = procs w"
      using fr by simp_all
    with d fs ne show ?thesis by blast
  qed
  have b: "download_sdk ctx e w = Inr (CANCELLED, report ERROR ''Configure Armory SDK path first'' w) \<and>
        files (report ERROR ''Configure Armory SDK path first'' w) = files w \<and>
        cwd (report ERROR ''Configure Armory SDK path first'' w) = cwd w \<and>
        procs (report ERROR ''Configure Armory SDK path first'' w) = procs w \<and>
        out (report ERROR ''Configure Armory SDK path first'' w) = out w"
    if "get_sdk_path ctx w = []"
    using that by (simp add: download_sdk_def)
  from a b show ?thesis by blast
qed


theorem download_sdk_creates_root_witness:
  "get_sdk_path ctx0 world0 \<noteq> [] \<and> files world0 (get_sdk_path ctx0 world0) = None \<and>
   (\<exists>w'. download_sdk ctx0
            (env_ok\<lparr>version_probe :=
               (\<lambda>v. if cwd v = ''sdk'' \<and> files v ''sdk'' = Some []
                    then ProbeRaises ''git: not found''
                    else Output ''git version 2.34.1'')\<rparr>) world0 = Inr (CANCELLED, w') \<and>
          files w' ''sdk'' = Some [] \<and> cwd w' = ''sdk'' \<and> procs w' = []) \<and>
   get_sdk_path (ctx0\<lparr>sdk_path := []\<rparr>) world0 = [] \<and>
   download_sdk (ctx0\<lparr>sdk_path := []\<rparr>) env_ok world0 =
     Inr (CANCELLED, report ERROR ''Configure Armory SDK path first'' world0)"
proof -
  let ?e = "env_ok\<lparr>version_probe :=
               (\<lambda>v. if cwd v = ''sdk'' \<and> files v ''sdk'' = Some []
                    then ProbeRaises ''git: not found''
                    else Output ''git version 2.34.1'')\<rparr>"
  have sdk: "get_sdk_path ctx0 world0 \<noteq> []" by (simp add: ctx0_sdk)
  have absent: "files world0 (get_sdk_path ctx0 world0) = None" by (simp add: world0_def)
  have late: "\<forall>w'. cwd w' = get_sdk_path ctx0 world0 \<and>
        files w' = (files world0)(get_sdk_path ctx0 world0 \<mapsto> []) \<longrightarrow>
        version_probe ?e w' = ProbeRaises ''git: not found'' \<or>
        (version_probe ?e w' = Output [] \<and> \<not> re_match git_version_pattern [])"
    by (simp add: ctx0_sdk)
  from download_sdk_creates_root[where ctx = ctx0 and w = world0 and e = ?e
      and msg = "''git: not found''" and s = "[]"] sdk absent late
  have "\<exists>w'. download_sdk ctx0 ?e world0 = Inr (CANCELLED, w') \<and>
       last (reports w') = (ERROR, git_failed_msg) \<and>
       files w' = (files world0)(get_sdk_path ctx0 world0 \<mapsto> []) \<and> files w' \<noteq> files world0 \<and>
       cwd w' = get_sdk_path ctx0 world0 \<and> procs w' = procs world0"
    by blast
  then have a: "\<exists>w'. download_sdk ctx0 ?e world0 = Inr (CANCELLED, w') \<and>
          files w' ''sdk'' = Some [] \<and> cwd w' = ''sdk'' \<and> procs w' = []"
    unfolding ctx0_sdk by (auto simp: world0_def)
  have unset: "get_sdk_path (ctx0\<lparr>sdk_path := []\<rparr>) world0 = []"
    by (simp add: get_sdk_path_def get_fp_def ctx0_def world0_def path_exists_def)
  with download_sdk_creates_root[where ctx = "ctx0\<lparr>sdk_path := []\<rparr>" and w = world0 and e = env_ok]
  have b: "download_sdk (ctx0\<lparr>sdk_path := []\<rparr>) env_ok world0 =
     Inr (CANCELLED, report ERROR ''Configure Armory SDK path first'' world0)"
    by blast
  from sdk absent a unset b show ?thesis by blast
qed

section \<open>Exits while the batch is still being launched\<close>

text \<open>
  The counters and signals behave in the same way when clones that already run exit
  between the calls of \<open>git_clone\<close>, under any schedule \<open>ss\<close>: the invariant of the
  batch is kept by every launch and by every exit.
\<close>

lemma batch_inv_proc_exit_plus:
  assumes "batch_inv a b (length (procs w) + k) w"
  shows "batch_inv a b (length (procs (proc_exit e (Some done_cb) i w)) + k)
           (proc_exit e (Some done_cb) i w)"
proof (cases "i < length (procs w)")
  case False
  with assms show ?thesis by (simp add: proc_exit_def)
next
  case True
  define F where "F = snd (git_run e (procs w ! i) (files w))"
  let ?ps = "take i (procs w) @ drop (Suc i) (procs w)"
  have len: "length (procs w) + k = Suc (length ?ps + k)"
    using True by simp
  have pe: "proc_exit e (Some done_cb) i w = done_cb 0 (w\<lparr>files := F, procs := ?ps\<rparr>)"
    unfolding F_def proc_exit_valid[OF True] by (simp add: fn_def)
  from assms have "batch_inv a b (Suc (length ?ps + k)) w"
    by (simp only: len[symmetric])
  then have "batch_inv a b (Suc (length ?ps + k)) (w\<lparr>files := F, procs := ?ps\<rparr>)"
    by (simp only: batch_inv_frame)
  then have "batch_inv a b (length ?ps + k) (done_cb 0 (w\<lparr>files := F, procs := ?ps\<rparr>))"
    by (rule batch_inv_done_cb)
  moreover have "procs (w\<lparr>files := F, procs := ?ps\<rparr>) = ?ps"
    by simp
  ultimately show ?thesis
    unfolding pe by (simp only: done_cb_frame)
qed

lemma batch_inv_run_exits_plus:
  "batch_inv a b (length (procs w) + k) w \<Longrightarrow>
   batch_inv a b (length (procs (run_exits e (Some done_cb) is w)) + k)
     (run_exits e (Some done_cb) is w)"
  by (induction "is" arbitrary: w) (simp_all add: batch_inv_proc_exit_plus)

lemma batch_inv_clone_all_sched:
  "batch_inv a b (length (procs w) + length rs) w \<Longrightarrow>
   \<exists>w'. clone_all_sched e (Some done_cb) sdk rs ss w = Inr w' \<and>
        batch_inv a b (length (procs w')) w'"
proof (induction rs arbitrary: w ss)
  case Nil
  then show ?case by simp
next
  case (Cons r rs)
  define v where "v = run_exits e (Some done_cb) (case ss of [] \<Rightarrow> [] | s # ss' \<Rightarrow> s) w"
  let ?v0 = "v\<lparr>files :=
            (if files v (sdk @ ''/'' @ fst (snd r)) = None then files v
             else if files v ((sdk @ ''/'' @ fst (snd r)) @ ''_backup'') = None
             then ((files v)(sdk @ ''/'' @ fst (snd r) := None))
                    ((sdk @ ''/'' @ fst (snd r)) @ ''_backup'' := files v (sdk @ ''/'' @ fst (snd r)))
             else (files v)(sdk @ ''/'' @ fst (snd r) := None))\<rparr>"
  let ?c = "git_clone_cmd (fst r) (sdk @ ''/'' @ fst (snd r)) (snd (snd r))"
  have "batch_inv a b (length (procs v) + Suc (length rs)) v"
    unfolding v_def using Cons.prems by (intro batch_inv_run_exits_plus) simp
  then have "batch_inv a b (length (procs ?v0) + Suc (length rs)) ?v0"
    by simp
  then have "batch_inv a b (length (procs (run_proc e ?c (Some done_cb) ?v0)) + length rs)
      (run_proc e ?c (Some done_cb) ?v0)"
    by (rule batch_inv_run_proc)
  from Cons.IH[OF this, of "tl ss"] show ?case
    by (simp add: v_def[symmetric] git_clone_eq and_then_Inr)
qed

lemma batch_signals_interleaved:
  assumes "repos_total w6 = 9" "repos_done w6 = 0" "repos_updated w6 = 0" "procs w6 = []"
  shows "\<exists>w1. clone_all_sched e (Some done_cb) sdk repos ss w6 = Inr w1 \<and>
           (\<forall>is. let w2 = run_exits e (Some done_cb) is w1 in
              0 \<le> repos_updated w2 \<and> repos_updated w2 \<le> repos_done w2 \<and>
              repos_done w2 = 9 - int (length (procs w2)) \<and>
              (if procs w2 \<noteq> []
               then n_success w2 = n_success w6 \<and> n_failed w2 = n_failed w6
               else if repos_updated w2 = 9
               then n_success w2 = Suc (n_success w6) \<and> n_failed w2 = n_failed w6
               else n_success w2 = n_success w6 \<and> n_failed w2 = Suc (n_failed w6)))"
proof -
  have "batch_inv (n_success w6) (n_failed w6) (length (procs w6) + length repos) w6"
    using assms by (simp add: batch_inv_def repos_def)
  from batch_inv_clone_all_sched[OF this] obtain w1 where
    c: "clone_all_sched e (Some done_cb) sdk repos ss w6 = Inr w1"
    and inv: "batch_inv (n_success w6) (n_failed w6) (length (procs w1)) w1"
    by blast
  have "let w2 = run_exits e (Some done_cb) is w1 in
              0 \<le> repos_updated w2 \<and> repos_updated w2 \<le> repos_done w2 \<and>
              repos_done w2 = 9 - int (length (procs w2)) \<and>
              (if procs w2 \<noteq> []
               then n_success w2 = n_success w6 \<and> n_failed w2 = n_failed w6
               else if repos_updated w2 = 9
               then n_success w2 = Suc (n_success w6) \<and> n_failed w2 = n_failed w6
               else n_success w2 = n_success w6 \<and> n_failed w2 = Suc (n_failed w6))" for "is"
  proof -
    define w2 where "w2 = run_exits e (Some done_cb) is w1"
    have i2: "batch_inv (n_success w6) (n_failed w6) (length (procs w2)) w2"
      unfolding w2_def by (rule batch_inv_run_exits[OF inv])
    have "procs w2 \<noteq> [] \<Longrightarrow> 1 \<le> int (length (procs w2))"
      by (cases "procs w2") simp_all
    with i2 have "0 \<le> repos_updated w2 \<and> repos_updated w2 \<le> repos_done w2 \<and>
              repos_done w2 = 9 - int (length (procs w2)) \<and>
              (if procs w2 \<noteq> []
               then n_success w2 = n_success w6 \<and> n_failed w2 = n_failed w6
               else if repos_updated w2 = 9
               then n_success w2 = Suc (n_success w6) \<and> n_failed w2 = n_failed w6
               else n_success w2 = n_success w6 \<and> n_failed w2 = Suc (n_failed w6))"
      by (auto simp: batch_inv_def split: if_splits)
    then show ?thesis
      unfolding Let_def w2_def[symmetric] .
  qed
  with c show ?thesis by blast
qed


section \<open>A batch with its callbacks, step by step\<close>







































end
